theory Spec2Isabelle
  imports Main
begin

section \<open>Strings as the component uses them\<close>

text \<open>
  The component \<^verbatim>\<open>AddWords\<close> exists twice in the repository: the reducer version
  (\<^verbatim>\<open>src/components/AddWords.tsx\<close>, built on \<^verbatim>\<open>useReducer\<close>, submitting optimistically
  with a rollback) and the \<^verbatim>\<open>useState\<close> version
  (\<^verbatim>\<open>frontend/src/components/AddWords.tsx\<close>, which waits for the server before it clears
  the form). Definitions taken from the reducer version end in \<open>_rd\<close>, those from the
  \<^verbatim>\<open>useState\<close> version in \<open>_us\<close>.

  A JavaScript string is modelled as a \<^typ>\<open>string\<close> whose characters are the code units
  \<open>U+0000\<close> to \<open>U+00FF\<close>. On this range \<^verbatim>\<open>String.prototype.trim\<close> and the regular
  expression class \<^verbatim>\<open>\s\<close> remove the same seven characters, and
  \<^verbatim>\<open>toLowerCase\<close> acts on each character by itself.
\<close>

definition isWhiteSpace :: "char \<Rightarrow> bool" where
  "isWhiteSpace c \<longleftrightarrow> (of_char c :: nat) \<in> {9, 10, 11, 12, 13, 32, 160}"

definition trim :: "string \<Rightarrow> string" where
  "trim s = rev (dropWhile isWhiteSpace (rev (dropWhile isWhiteSpace s)))"

definition isUpper :: "nat \<Rightarrow> bool" where
  "isUpper n \<longleftrightarrow> (65 \<le> n \<and> n \<le> 90) \<or> (192 \<le> n \<and> n \<le> 222 \<and> n \<noteq> 215)"

definition lowerChar :: "char \<Rightarrow> char" where
  "lowerChar c = (if isUpper (of_char c) then char_of (of_char c + 32 :: nat) else c)"

definition toLowerCase :: "string \<Rightarrow> string" where
  "toLowerCase s = map lowerChar s"

text \<open>
  \<^verbatim>\<open>s.split(/[...]+/)\<close> for a character class \<open>d\<close>: every maximal run of characters of
  the class separates two pieces; a run at the start or at the end of the string leaves an
  empty piece there, and the empty string splits into one empty piece.
\<close>

function splitRuns :: "(char \<Rightarrow> bool) \<Rightarrow> string \<Rightarrow> string \<Rightarrow> string list" where
  "splitRuns d cur [] = [rev cur]"
| "splitRuns d cur (c # cs) =
     (if d c then rev cur # splitRuns d [] (dropWhile d cs)
      else splitRuns d (c # cur) cs)"
  by pat_completeness auto
termination
  by (relation "measure (\<lambda>(d, cur, cs). length cs)")
     (auto simp: le_imp_less_Suc length_dropWhile_le)

definition split :: "(char \<Rightarrow> bool) \<Rightarrow> string \<Rightarrow> string list" where
  "split d s = splitRuns d [] s"

text \<open>\<^verbatim>\<open>function normalize(word) { return word.trim(); }\<close>\<close>

definition normalize :: "string \<Rightarrow> string" where
  "normalize word = trim word"

text \<open>The class \<^verbatim>\<open>[\n,;]\<close> of the \<^verbatim>\<open>useState\<close> version.\<close>

definition isDelim_us :: "char \<Rightarrow> bool" where
  "isDelim_us c \<longleftrightarrow> c = CHR 0x0A \<or> c = CHR '','' \<or> c = CHR '';''"

text \<open>The class \<^verbatim>\<open>[\n,\s;"]\<close> of the reducer version.\<close>

definition isDelim_rd :: "char \<Rightarrow> bool" where
  "isDelim_rd c \<longleftrightarrow>
     c = CHR 0x0A \<or> c = CHR '','' \<or> isWhiteSpace c \<or> c = CHR '';'' \<or> c = CHR 0x22"

text \<open>
  \<^verbatim>\<open>text.split(...).map(normalize).filter(Boolean).slice(0, 100)\<close>: \<^verbatim>\<open>Boolean\<close> keeps
  the strings that are not empty.
\<close>

definition parsed_us :: "string \<Rightarrow> string list" where
  "parsed_us text = take 100 (filter (\<lambda>w. w \<noteq> []) (map normalize (split isDelim_us text)))"

definition parsed_rd :: "string \<Rightarrow> string list" where
  "parsed_rd text = take 100 (filter (\<lambda>w. w \<noteq> []) (map normalize (split isDelim_rd text)))"

section \<open>The state of the component\<close>

text \<open>
  Every message the component shows is one of its string literals or a text the server
  sent; the type \<open>msg\<close> names them:
  \<^item> \<open>EnterExactlyTen n\<close>: \<^verbatim>\<open>Please enter exactly 10 words. You entered n.\<close>
  \<^item> \<open>ReplaceDuplicatesBelow\<close>: \<^verbatim>\<open>Please replace the duplicate words shown below.\<close>
  \<^item> \<open>SomeDuplicates\<close>: \<^verbatim>\<open>Some words are duplicates -- please replace them.\<close>
  \<^item> \<open>AddedSuccessfully\<close>: \<^verbatim>\<open>Words added successfully!\<close>
  \<^item> \<open>ConflictsOnSubmit\<close>:
    \<^verbatim>\<open>Conflicts detected on submit -- please replace highlighted words.\<close>
  \<^item> \<open>FinalMustBeTen\<close>: \<^verbatim>\<open>Final list must be exactly 10 unique non-empty words.\<close>
  \<^item> \<open>ValidationFailed\<close>, \<open>SubmitFailed\<close>: \<^verbatim>\<open>Validation failed\<close>, \<^verbatim>\<open>Submit failed\<close>
  \<^item> \<open>ServerText e\<close>: the field \<^verbatim>\<open>error\<close> of a failed response
\<close>

datatype msg =
    EnterExactlyTen nat
  | ReplaceDuplicatesBelow
  | SomeDuplicates
  | AddedSuccessfully
  | ConflictsOnSubmit
  | FinalMustBeTen
  | ValidationFailed
  | SubmitFailed
  | ServerText string

text \<open>
  \<^verbatim>\<open>type Conflicts = { db: string[]; inBatch: string[] } | null\<close> is a
  \<open>conflictSet option\<close>. \<^verbatim>\<open>Record<string, string>\<close> is a map from keys to strings: a key
  the object does not own reads as \<^verbatim>\<open>undefined\<close>, here \<open>None\<close>. Both versions hold
  the same eight values, the reducer version in one \<^verbatim>\<open>State\<close> object, the other in eight
  \<^verbatim>\<open>useState\<close> cells. The field \<^verbatim>\<open>text\<close> of the source is \<open>rawText\<close> here.

  The map holds the object's own properties, as the type \<^verbatim>\<open>Record<string, string>\<close> says.
  What a plain object inherits from \<^verbatim>\<open>Object.prototype\<close> (the keys \<^verbatim>\<open>constructor\<close> and
  \<^verbatim>\<open>__proto__\<close>) is not part of the model: the \<^verbatim>\<open>useState\<close> version reads the
  replacements behind \<^verbatim>\<open>hasOwnProperty\<close>, the reducer version reads
  \<^verbatim>\<open>state.replacements[key]\<close> without that test.
\<close>

record conflictSet =
  db :: "string list"
  inBatch :: "string list"

record savedWord =
  word :: string
  wordLower :: string

record state =
  rawText :: string
  conflicts :: "conflictSet option"
  replacements :: "string \<rightharpoonup> string"
  message :: "msg option"
  loading :: bool
  savedWords :: "savedWord list"
  savedLoading :: bool
  savedError :: "string option"

definition initialState :: state where
  "initialState =
     \<lparr>rawText = [], conflicts = None, replacements = Map.empty, message = None,
      loading = False, savedWords = [], savedLoading = False, savedError = None\<rparr>"

section \<open>The final list and its validity\<close>

text \<open>
  \<^verbatim>\<open>buildFinal\<close> of the \<^verbatim>\<open>useState\<close> version: the replacement is taken when the map owns
  the key and the trimmed replacement is not empty.
\<close>

definition buildFinal_us :: "state \<Rightarrow> string list" where
  "buildFinal_us st =
     map (\<lambda>w. let key = toLowerCase w
              in case replacements st key of
                   Some rep \<Rightarrow> if trim rep \<noteq> [] then trim rep else trim w
                 | None \<Rightarrow> trim w)
         (parsed_us (rawText st))"

text \<open>
  \<^verbatim>\<open>buildFinal\<close> of the reducer version:
  \<^verbatim>\<open>rep && rep.trim() ? rep.trim() : w.trim()\<close>, where an absent and an empty
  replacement are both falsy.
\<close>

definition buildFinal_rd :: "state \<Rightarrow> string list" where
  "buildFinal_rd st =
     map (\<lambda>w. case replacements st (toLowerCase w) of
                None \<Rightarrow> trim w
              | Some rep \<Rightarrow> if rep \<noteq> [] \<and> trim rep \<noteq> [] then trim rep else trim w)
         (parsed_rd (rawText st))"

text \<open>
  \<^verbatim>\<open>new Set(xs).size\<close> is the number of different elements of \<open>xs\<close>.
\<close>

definition setSize :: "string list \<Rightarrow> nat" where
  "setSize xs = length (remdups xs)"



section \<open>Duplicates inside the batch\<close>

text \<open>
  \<^verbatim>\<open>inBatchDupKeys\<close> (only in the \<^verbatim>\<open>useState\<close> version) counts the lowercase forms in a
  \<^verbatim>\<open>Map\<close>, whose entries keep the order in which their keys were first set, and returns the
  keys counted more than once.
\<close>

fun countKey :: "string \<Rightarrow> (string \<times> nat) list \<Rightarrow> (string \<times> nat) list" where
  "countKey k [] = [(k, 1)]"
| "countKey k ((k', c) # m) = (if k = k' then (k', c + 1) # m else (k', c) # countKey k m)"

definition counts :: "string list \<Rightarrow> (string \<times> nat) list" where
  "counts ws = foldl (\<lambda>m w. countKey (toLowerCase w) m) [] ws"

definition inBatchDupKeys :: "string list \<Rightarrow> string list" where
  "inBatchDupKeys ws = map fst (filter (\<lambda>(k, c). c > 1) (counts ws))"

section \<open>Requests and what the server answers\<close>

text \<open>
  A rejected request: \<open>Thrown\<close> is an error that is not the HTTP client's; \<open>AxiosFailure r\<close>
  is the client's error, with the response when one arrived (\<^verbatim>\<open>err.response\<close>, its
  \<^verbatim>\<open>status\<close> and the fields \<^verbatim>\<open>error\<close> and \<^verbatim>\<open>conflicts\<close> of its \<^verbatim>\<open>data\<close>).
\<close>

record errorData =
  respError :: "string option"
  respConflicts :: "conflictSet option"

record response =
  status :: "nat option"
  respData :: "errorData option"

datatype failure = Thrown | AxiosFailure "response option"

datatype 'a outcome = Resolved 'a | Rejected failure

text \<open>The body of a validation response: \<^verbatim>\<open>{ ok, conflicts? }\<close>.\<close>

record validateData =
  ok :: bool
  vConflicts :: "conflictSet option"

text \<open>
  The body of \<^verbatim>\<open>GET /words\<close>: an array of documents, an object whose \<^verbatim>\<open>mine\<close> is
  an array (or is not: \<open>Envelope None\<close>), or anything else.
\<close>

record wordDoc =
  docWord :: "string option"
  docWordLower :: "string option"

datatype wordsData = Docs "wordDoc list" | Envelope "wordDoc list option" | OtherData

text \<open>
  What the surroundings answer while one handler runs: the validation request, the
  persistence request, the caller's \<^verbatim>\<open>onAdded\<close> hook (\<open>None\<close> when the caller gave none)
  and the request for the saved words.
\<close>

record api =
  validateResult :: "validateData outcome"
  postResult :: "unit outcome"
  onAddedResult :: "unit outcome option"
  getResult :: "wordsData outcome"

datatype request = PostValidate "string list" | PostWords "string list" | GetWords

text \<open>\<^verbatim>\<open>err.response?.data?.error || fallback\<close>\<close>

definition responseError :: "response option \<Rightarrow> msg \<Rightarrow> msg" where
  "responseError r fallback =
     (case r of
        None \<Rightarrow> fallback
      | Some resp \<Rightarrow>
          (case respData resp of
             None \<Rightarrow> fallback
           | Some d \<Rightarrow>
               (case respError d of
                  None \<Rightarrow> fallback
                | Some e \<Rightarrow> if e \<noteq> [] then ServerText e else fallback)))"

text \<open>
  \<^verbatim>\<open>isApiError\<close> of the reducer version asks for the property \<^verbatim>\<open>isAxiosError\<close>; the
  one of the \<^verbatim>\<open>useState\<close> version asks for an own property \<^verbatim>\<open>response\<close> that is an
  object, which the client's error has when a response arrived.
\<close>

fun isApiError_rd :: "failure \<Rightarrow> bool" where
  "isApiError_rd Thrown = False"
| "isApiError_rd (AxiosFailure r) = True"

fun isApiError_us :: "failure \<Rightarrow> bool" where
  "isApiError_us Thrown = False"
| "isApiError_us (AxiosFailure None) = False"
| "isApiError_us (AxiosFailure (Some r)) = True"

fun errResponse :: "failure \<Rightarrow> response option" where
  "errResponse Thrown = None"
| "errResponse (AxiosFailure r) = r"

definition errorMessage_rd :: "failure \<Rightarrow> msg \<Rightarrow> msg" where
  "errorMessage_rd err fallback =
     (if isApiError_rd err then responseError (errResponse err) fallback else fallback)"

definition errorMessage_us :: "failure \<Rightarrow> msg \<Rightarrow> msg" where
  "errorMessage_us err fallback =
     (if isApiError_us err then responseError (errResponse err) fallback else fallback)"

section \<open>The handlers of the \<^verbatim>\<open>useState\<close> version\<close>

text \<open>
  A handler runs from the state of the render that created it and is taken to run to its
  end before the next event. It returns the state after its last setter and the requests it
  sent, in order.
\<close>

text \<open>\<^verbatim>\<open>const map = {}; keys.forEach((k) => (map[k.toLowerCase()] = "")); return map\<close>\<close>

definition initReplacementsFromList :: "string list \<Rightarrow> (string \<rightharpoonup> string)" where
  "initReplacementsFromList keys = foldl (\<lambda>m k. m(toLowerCase k \<mapsto> [])) Map.empty keys"

text \<open>
  The saved words shown below the form:
  \<^verbatim>\<open>{ word: String(d.word || "").trim(),
     wordLower: String(d.wordLower || String(d.word || "").toLowerCase()).toLowerCase() }\<close>
\<close>

definition orEmpty :: "string option \<Rightarrow> string" where
  "orEmpty x = (case x of None \<Rightarrow> [] | Some v \<Rightarrow> v)"

definition toSaved :: "wordDoc \<Rightarrow> savedWord" where
  "toSaved d =
     \<lparr>word = trim (orEmpty (docWord d)),
      wordLower =
        toLowerCase
          (if orEmpty (docWordLower d) \<noteq> [] then orEmpty (docWordLower d)
           else toLowerCase (orEmpty (docWord d)))\<rparr>"

definition docsOf :: "wordsData \<Rightarrow> wordDoc list" where
  "docsOf data =
     (case data of
        Docs ds \<Rightarrow> ds
      | Envelope (Some ds) \<Rightarrow> ds
      | Envelope None \<Rightarrow> []
      | OtherData \<Rightarrow> [])"


text \<open>
  \<^verbatim>\<open>isApiError(err) && err.response?.status === 409 && err.response?.data?.conflicts\<close>:
  the conflicts a rejected submit carries, if it is such a rejection.
\<close>

definition serverConflicts :: "failure \<Rightarrow> conflictSet option" where
  "serverConflicts err =
     (if isApiError_us err then
        (case errResponse err of
           None \<Rightarrow> None
         | Some r \<Rightarrow>
             if status r = Some 409
             then (case respData r of None \<Rightarrow> None | Some d \<Rightarrow> respConflicts d)
             else None)
      else None)"

text \<open>The \<^verbatim>\<open>catch\<close> block of \<^verbatim>\<open>submitFinal\<close>.\<close>

definition submitCatch_us :: "failure \<Rightarrow> state \<Rightarrow> state" where
  "submitCatch_us err s =
     (case serverConflicts err of
        Some sc \<Rightarrow>
          (let dbList = map toLowerCase (db sc);
               batchList = map toLowerCase (inBatch sc)
           in s\<lparr>conflicts := Some \<lparr>db = dbList, inBatch = batchList\<rparr>,
                 replacements := foldl (\<lambda>m k. m(k \<mapsto> [])) Map.empty (dbList @ batchList),
                 message := Some ConflictsOnSubmit\<rparr>)
      | None \<Rightarrow> s\<lparr>message := Some (errorMessage_us err SubmitFailed)\<rparr>)"

text \<open>
  \<^verbatim>\<open>submitFinal\<close>: the form is cleared after the server has accepted the words. A hook
  \<^verbatim>\<open>onAdded\<close> that fails ends in the same \<^verbatim>\<open>catch\<close> block; a failing refresh of the saved
  words is ignored.
\<close>

definition submitFinal_us :: "api \<Rightarrow> string list \<Rightarrow> state \<Rightarrow> state \<times> request list" where
  "submitFinal_us a finalWords s0 =
     (let s1 = s0\<lparr>loading := True, message := None\<rparr>
      in case postResult a of
           Rejected err \<Rightarrow> ((submitCatch_us err s1)\<lparr>loading := False\<rparr>, [PostWords finalWords])
         | Resolved u \<Rightarrow>
             (let s2 = s1\<lparr>message := Some AddedSuccessfully, rawText := [],
                          conflicts := None, replacements := Map.empty\<rparr>
              in case onAddedResult a of
                   Some (Rejected err) \<Rightarrow>
                     ((submitCatch_us err s2)\<lparr>loading := False\<rparr>, [PostWords finalWords])
                 | _ \<Rightarrow>
                     (case getResult a of
                        Resolved data \<Rightarrow>
                          (s2\<lparr>savedWords := map toSaved (docsOf data), loading := False\<rparr>,
                           [PostWords finalWords, GetWords])
                      | Rejected err \<Rightarrow>
                          (s2\<lparr>loading := False\<rparr>, [PostWords finalWords, GetWords]))))"

text \<open>
  \<^verbatim>\<open>handleValidate\<close>. The replacement map of a validation response is filled by
  \<^verbatim>\<open>map[k.toLowerCase()] === undefined ? (map[k.toLowerCase()] = "") : null\<close>.
\<close>

definition handleValidate_us :: "api \<Rightarrow> state \<Rightarrow> state \<times> request list" where
  "handleValidate_us a st =
     (let s1 = st\<lparr>message := None, conflicts := None\<rparr>;
          ps = parsed_us (rawText st)
      in if length ps \<noteq> 10 then (s1\<lparr>message := Some (EnterExactlyTen (length ps))\<rparr>, [])
         else if length (inBatchDupKeys ps) > 0 then
           (let inBatchLower = map toLowerCase (inBatchDupKeys ps)
            in (s1\<lparr>conflicts := Some \<lparr>db = [], inBatch = inBatchLower\<rparr>,
                    replacements := initReplacementsFromList inBatchLower,
                    message := Some ReplaceDuplicatesBelow\<rparr>, []))
         else
           (let s2 = s1\<lparr>loading := True\<rparr>
            in case validateResult a of
                 Rejected err \<Rightarrow>
                   (s2\<lparr>message := Some (errorMessage_us err ValidationFailed), loading := False\<rparr>,
                    [PostValidate ps])
               | Resolved data \<Rightarrow>
                   (let c = (case vConflicts data of Some c \<Rightarrow> c | None \<Rightarrow> \<lparr>db = [], inBatch = []\<rparr>)
                    in if db c \<noteq> [] \<or> inBatch c \<noteq> [] then
                         (s2\<lparr>replacements :=
                                foldl (\<lambda>m k. if m (toLowerCase k) = None
                                               then m(toLowerCase k \<mapsto> []) else m)
                                  Map.empty (db c @ inBatch c),
                              conflicts := Some \<lparr>db = map toLowerCase (db c),
                                                inBatch = map toLowerCase (inBatch c)\<rparr>,
                              message := Some SomeDuplicates,
                              loading := False\<rparr>,
                          [PostValidate ps])
                       else
                         (let (s3, reqs) = submitFinal_us a (buildFinal_us st) s2
                          in (s3\<lparr>loading := False\<rparr>, PostValidate ps # reqs)))))"






section \<open>The reducer version\<close>

datatype action =
    SET_TEXT string
  | SET_LOADING bool
  | SET_MESSAGE "msg option"
  | SET_CONFLICTS "conflictSet option"
  | SET_REPLACEMENTS "string \<rightharpoonup> string"
  | RESET_FORM
  | SET_SAVED "savedWord list"
  | ROLLBACK state

fun reducer :: "state \<Rightarrow> action \<Rightarrow> state" where
  "reducer s (SET_TEXT t) = s\<lparr>rawText := t\<rparr>"
| "reducer s (SET_LOADING v) = s\<lparr>loading := v\<rparr>"
| "reducer s (SET_MESSAGE m) = s\<lparr>message := m\<rparr>"
| "reducer s (SET_CONFLICTS c) = s\<lparr>conflicts := c\<rparr>"
| "reducer s (SET_REPLACEMENTS r) = s\<lparr>replacements := r\<rparr>"
| "reducer s RESET_FORM = s\<lparr>rawText := [], conflicts := None, replacements := Map.empty\<rparr>"
| "reducer s (SET_SAVED ws) = s\<lparr>savedWords := ws\<rparr>"
| "reducer s (ROLLBACK snapshot) = snapshot"

text \<open>
  A handler of the reducer version dispatches actions; the reducer applies them, in order,
  to the state the handler started from.
\<close>

definition dispatchAll :: "state \<Rightarrow> action list \<Rightarrow> state" where
  "dispatchAll s acts = foldl reducer s acts"

text \<open>
  \<^verbatim>\<open>submitFinal\<close>: the snapshot is the state of the render (\<^verbatim>\<open>rollbackRef.current = state\<close>),
  the form is reset before the request is sent, and every failure inside \<^verbatim>\<open>try\<close>, of the
  request or of the hook \<^verbatim>\<open>onAdded\<close>, dispatches the rollback.
\<close>

definition submitFinal_rd :: "api \<Rightarrow> state \<Rightarrow> string list \<Rightarrow> action list \<times> request list" where
  "submitFinal_rd a st finalWords =
     (let rollbackRef = Some st;
          optimistic = [SET_LOADING True, SET_MESSAGE (Some AddedSuccessfully), RESET_FORM];
          failed = (\<lambda>err.
            (case rollbackRef of Some snapshot \<Rightarrow> [ROLLBACK snapshot] | None \<Rightarrow> [])
            @ [SET_MESSAGE (Some (errorMessage_rd err SubmitFailed))]);
          tried =
            (case postResult a of
               Rejected err \<Rightarrow> failed err
             | Resolved u \<Rightarrow>
                 (case onAddedResult a of Some (Rejected err) \<Rightarrow> failed err | _ \<Rightarrow> []))
      in (optimistic @ tried @ [SET_LOADING False], [PostWords finalWords]))"

text \<open>
  \<^verbatim>\<open>handleValidate\<close>: the conflicts of the response are taken when
  \<^verbatim>\<open>!ok && conflicts\<close>.
\<close>

definition handleValidate_rd :: "api \<Rightarrow> state \<Rightarrow> action list \<times> request list" where
  "handleValidate_rd a st =
     (let start = [SET_MESSAGE None, SET_CONFLICTS None];
          ps = parsed_rd (rawText st)
      in if length ps \<noteq> 10
         then (start @ [SET_MESSAGE (Some (EnterExactlyTen (length ps)))], [])
         else
           (case validateResult a of
              Rejected err \<Rightarrow>
                (start @ [SET_LOADING True,
                          SET_MESSAGE (Some (errorMessage_rd err ValidationFailed)),
                          SET_LOADING False],
                 [PostValidate ps])
            | Resolved data \<Rightarrow>
                (case (if ok data then None else vConflicts data) of
                   Some c \<Rightarrow>
                     (start @ [SET_LOADING True,
                               SET_CONFLICTS (Some c),
                               SET_REPLACEMENTS
                                 (foldl (\<lambda>m k. m(toLowerCase k \<mapsto> [])) Map.empty
                                    (db c @ inBatch c)),
                               SET_MESSAGE (Some SomeDuplicates),
                               SET_LOADING False],
                      [PostValidate ps])
                 | None \<Rightarrow>
                     (let (acts, reqs) = submitFinal_rd a st (buildFinal_rd st)
                      in (start @ [SET_LOADING True] @ acts @ [SET_LOADING False],
                          PostValidate ps # reqs)))))"


section \<open>Notions used in the statements\<close>

text \<open>A string is trimmed when it neither starts nor ends with white space.\<close>

definition trimmed :: "string \<Rightarrow> bool" where
  "trimmed t \<longleftrightarrow> t = [] \<or> (\<not> isWhiteSpace (hd t) \<and> \<not> isWhiteSpace (last t))"


definition allBlank :: "(string \<rightharpoonup> string) \<Rightarrow> bool" where
  "allBlank m \<longleftrightarrow> (\<forall>k v. m k = Some v \<longrightarrow> v = [])"




section \<open>Sample inputs\<close>

definition tenText :: string where
  "tenText = ''apple, dog, cat, bird, fish, lion, wolf, bear, deer, frog''"


definition tenState :: state where
  "tenState = initialState\<lparr>rawText := tenText\<rparr>"


definition apiOf :: "validateData outcome \<Rightarrow> unit outcome \<Rightarrow> api" where
  "apiOf v p =
     \<lparr>validateResult = v, postResult = p, onAddedResult = None, getResult = Resolved (Docs [])\<rparr>"

text \<open>No response arrives.\<close>

definition networkDown :: failure where
  "networkDown = AxiosFailure None"

definition apiDown :: api where
  "apiDown = apiOf (Rejected networkDown) (Rejected networkDown)"

text \<open>The validation reports a stored word, in lowercase and as \<^verbatim>\<open>Apple\<close>.\<close>

definition apiAppleConflict :: api where
  "apiAppleConflict =
     apiOf (Resolved \<lparr>ok = False, vConflicts = Some \<lparr>db = [''apple''], inBatch = []\<rparr>\<rparr>)
       (Resolved ())"

definition apiMixedCase :: api where
  "apiMixedCase =
     apiOf (Resolved \<lparr>ok = False, vConflicts = Some \<lparr>db = [''Apple''], inBatch = []\<rparr>\<rparr>)
       (Resolved ())"



text \<open>The states after a validation of the ten words that reported \<^verbatim>\<open>apple\<close>.\<close>

definition conflictState_us :: state where
  "conflictState_us = fst (handleValidate_us apiAppleConflict tenState)"

definition conflictState_rd :: state where
  "conflictState_rd = dispatchAll tenState (fst (handleValidate_rd apiAppleConflict tenState))"


section \<open>Lemmas\<close>

subsection \<open>Characters and trimming\<close>




lemma last_dropWhile_keep: "dropWhile P xs \<noteq> [] \<Longrightarrow> last (dropWhile P xs) = last xs"
  by (induction xs) (auto split: if_splits)

lemma dropWhile_self: "xs = [] \<or> \<not> P (hd xs) \<Longrightarrow> dropWhile P xs = xs"
  by (cases xs) auto

lemma trimmed_trim: "trimmed (trim s)"
proof -
  define a where "a = dropWhile isWhiteSpace s"
  define r where "r = dropWhile isWhiteSpace (rev a)"
  have t: "trim s = rev r" by (simp add: trim_def a_def r_def)
  show ?thesis
  proof (cases "r = []")
    case True
    then show ?thesis by (simp add: t trimmed_def)
  next
    case False
    then have h: "\<not> isWhiteSpace (hd r)" unfolding r_def by (simp add: hd_dropWhile)
    from False have ra: "rev a \<noteq> []" unfolding r_def by auto
    then have an: "a \<noteq> []" by simp
    from False have "last r = last (rev a)" unfolding r_def by (rule last_dropWhile_keep)
    also have "\<dots> = hd a" using an by (simp add: last_rev)
    finally have l: "last r = hd a" .
    have "\<not> isWhiteSpace (hd a)" using an unfolding a_def by (simp add: hd_dropWhile)
    with l h False show ?thesis by (simp add: t trimmed_def hd_rev last_rev)
  qed
qed

lemma trim_trimmed: "trimmed t \<Longrightarrow> trim t = t"
proof -
  assume tr: "trimmed t"
  then have 1: "dropWhile isWhiteSpace t = t" by (intro dropWhile_self) (auto simp: trimmed_def)
  from tr have 2: "dropWhile isWhiteSpace (rev t) = rev t"
    by (intro dropWhile_self) (auto simp: trimmed_def hd_rev)
  show ?thesis by (simp add: trim_def 1 2)
qed

lemma trim_idem: "trim (trim s) = trim s"
  by (rule trim_trimmed) (rule trimmed_trim)

subsection \<open>Splitting\<close>

lemma splitRuns_no_delim:
  "\<forall>x\<in>set cur. \<not> d x \<Longrightarrow> t \<in> set (splitRuns d cur s) \<Longrightarrow> x \<in> set t \<Longrightarrow> \<not> d x"
proof (induction d cur s rule: splitRuns.induct)
  case (1 d cur)
  then show ?case by simp
next
  case (2 d cur c cs)
  show ?case
  proof (cases "d c")
    case True
    with 2(4) have "t = rev cur \<or> t \<in> set (splitRuns d [] (dropWhile d cs))" by simp
    then show ?thesis
    proof
      assume "t = rev cur"
      with 2(3,5) show ?thesis by simp
    next
      assume "t \<in> set (splitRuns d [] (dropWhile d cs))"
      with 2(1) [OF True] 2(5) show ?thesis by simp
    qed
  next
    case False
    with 2(4) have m: "t \<in> set (splitRuns d (c # cur) cs)" by simp
    from False 2(3) have "\<forall>x\<in>set (c # cur). \<not> d x" by simp
    from 2(2) [OF False this m 2(5)] show ?thesis .
  qed
qed

lemma filter_dropWhile_same: "filter (\<lambda>c. \<not> d c) (dropWhile d cs) = filter (\<lambda>c. \<not> d c) cs"
  by (induction cs) auto

lemma concat_splitRuns: "concat (splitRuns d cur s) = rev cur @ filter (\<lambda>c. \<not> d c) s"
  by (induction d cur s rule: splitRuns.induct) (auto simp: filter_dropWhile_same)

lemma splitRuns_prefix:
  "\<forall>x\<in>set p. \<not> d x \<Longrightarrow> splitRuns d cur (p @ s) = splitRuns d (rev p @ cur) s"
  by (induction p arbitrary: cur) auto

lemma split_no_delim: "\<forall>c\<in>set p. \<not> d c \<Longrightarrow> split d p = [p]"
  using splitRuns_prefix [of p d "[]" "[]"] by (simp add: split_def)

lemma split_at_run:
  "\<forall>x\<in>set p. \<not> d x \<Longrightarrow> d c \<Longrightarrow> split d (p @ c # rest) = p # split d (dropWhile d rest)"
  using splitRuns_prefix [of p d "[]" "c # rest"] by (simp add: split_def)

lemma split_pieces: "t \<in> set (split d s) \<Longrightarrow> x \<in> set t \<Longrightarrow> \<not> d x"
  unfolding split_def by (rule splitRuns_no_delim [of "[]"]) simp_all

lemma concat_split: "concat (split d s) = filter (\<lambda>c. \<not> d c) s"
  by (simp add: split_def concat_splitRuns)

subsection \<open>Parsed words\<close>

lemma parsed_us_token: "t \<in> set (parsed_us raw) \<Longrightarrow> t \<noteq> [] \<and> trim t = t"
  by (auto simp: parsed_us_def normalize_def trim_idem dest!: in_set_takeD)

lemma parsed_rd_token: "t \<in> set (parsed_rd raw) \<Longrightarrow> t \<noteq> [] \<and> trim t = t"
  by (auto simp: parsed_rd_def normalize_def trim_idem dest!: in_set_takeD)

lemma length_parsed_us: "length (parsed_us raw) \<le> 100"
  by (simp add: parsed_us_def)

lemma length_parsed_rd: "length (parsed_rd raw) \<le> 100"
  by (simp add: parsed_rd_def)

subsection \<open>The final list\<close>



lemma trim_nonempty_fixed: "trim r \<noteq> [] \<Longrightarrow> trim r \<noteq> [] \<and> trim (trim r) = trim r"
  by (simp add: trim_idem)



lemma setSize_card: "setSize xs = card (set xs)"
  by (simp add: setSize_def length_remdups_card_conv)










subsection \<open>Counting keys\<close>

lemma countKey_keys:
  "map fst (countKey k m) = (if k \<in> set (map fst m) then map fst m else map fst m @ [k])"
  by (induction k m rule: countKey.induct) auto


lemma counts_snoc: "counts (ws @ [w]) = countKey (toLowerCase w) (counts ws)"
  by (simp add: counts_def)

lemma counts_keys:
  "distinct (map fst (counts ws)) \<and> set (map fst (counts ws)) = set (map toLowerCase ws)"
proof (induction ws rule: rev_induct)
  case Nil
  then show ?case by (simp add: counts_def)
next
  case (snoc w ws)
  then show ?case by (auto simp: counts_snoc countKey_keys)
qed



lemma inBatchDupKeys_distinct: "distinct (inBatchDupKeys ws)"
proof -
  have "distinct (map fst (counts ws))" using counts_keys by blast
  then show ?thesis unfolding inBatchDupKeys_def by (rule distinct_map_filter)
qed


subsection \<open>Replacement maps\<close>


lemma dom_blank_lower_keys:
  "dom (foldl (\<lambda>m k. m(toLowerCase k \<mapsto> [])) m0 ks) = dom m0 \<union> toLowerCase ` set ks"
  by (induction ks arbitrary: m0) auto

lemma dom_blank_new_keys:
  "dom (foldl (\<lambda>m k. if m (toLowerCase k) = None then m(toLowerCase k \<mapsto> []) else m) m0 ks)
     = dom m0 \<union> toLowerCase ` set ks"
  by (induction ks arbitrary: m0) auto

lemma allBlank_empty: "allBlank Map.empty"
  by (simp add: allBlank_def)

lemma allBlank_upd: "allBlank m \<Longrightarrow> allBlank (m(k \<mapsto> []))"
  by (simp add: allBlank_def)


lemma blank_lower_keys_values:
  "allBlank m0 \<Longrightarrow> allBlank (foldl (\<lambda>m k. m(toLowerCase k \<mapsto> [])) m0 ks)"
  by (induction ks arbitrary: m0) (simp_all add: allBlank_upd)

lemma blank_new_keys_values:
  "allBlank m0 \<Longrightarrow>
   allBlank (foldl (\<lambda>m k. if m (toLowerCase k) = None then m(toLowerCase k \<mapsto> []) else m) m0 ks)"
  by (induction ks arbitrary: m0) (simp_all add: allBlank_upd)

subsection \<open>The reducer version: what a run of submitFinal leaves\<close>


lemma submitFinal_rd_requests: "snd (submitFinal_rd a st fw) = [PostWords fw]"
  by (simp add: submitFinal_rd_def Let_def)


lemma handleValidate_rd_rejected:
  assumes "length (parsed_rd (rawText st)) = 10" and "validateResult a = Rejected err"
  shows "dispatchAll st (fst (handleValidate_rd a st))
           = st\<lparr>message := Some (errorMessage_rd err ValidationFailed), conflicts := None,
                 loading := False\<rparr>"
    and "snd (handleValidate_rd a st) = [PostValidate (parsed_rd (rawText st))]"
  using assms by (simp_all add: handleValidate_rd_def Let_def dispatchAll_def)


subsection \<open>The useState version\<close>

lemma handleValidate_us_rejected:
  assumes "length (parsed_us (rawText st)) = 10"
    and "inBatchDupKeys (parsed_us (rawText st)) = []"
    and "validateResult a = Rejected err"
  shows "handleValidate_us a st
           = (st\<lparr>message := Some (errorMessage_us err ValidationFailed), conflicts := None,
                  loading := False\<rparr>,
              [PostValidate (parsed_us (rawText st))])"
  using assms by (simp add: handleValidate_us_def Let_def)


lemma handleValidate_us_conflicts:
  assumes "length (parsed_us (rawText st)) = 10"
    and "inBatchDupKeys (parsed_us (rawText st)) = []"
    and "validateResult a = Resolved data"
    and "vConflicts data = Some c"
    and "db c \<noteq> [] \<or> inBatch c \<noteq> []"
  shows "handleValidate_us a st
           = (st\<lparr>message := Some SomeDuplicates,
                  conflicts := Some \<lparr>db = map toLowerCase (db c),
                                    inBatch = map toLowerCase (inBatch c)\<rparr>,
                  replacements :=
                    foldl (\<lambda>m k. if m (toLowerCase k) = None
                                   then m(toLowerCase k \<mapsto> []) else m)
                      Map.empty (db c @ inBatch c),
                  loading := False\<rparr>,
              [PostValidate (parsed_us (rawText st))])"
  using assms by (simp add: handleValidate_us_def Let_def)


lemma submitFinal_us_other:
  assumes "postResult a = Rejected err" and "serverConflicts err = None"
  shows "submitFinal_us a fw s
           = (s\<lparr>loading := False, message := Some (errorMessage_us err SubmitFailed)\<rparr>,
              [PostWords fw])"
  using assms by (simp add: submitFinal_us_def submitCatch_us_def Let_def)


subsection \<open>Reachable states keep the keys of the replacements within the conflicts\<close>

















subsection \<open>Conflicts reported by a validation, in general\<close>

text \<open>
  What the two versions hold after a validation response with conflicts. The \<^verbatim>\<open>useState\<close>
  version holds the conflicts in lowercase and maps exactly their lowercase keys to the empty
  string. The reducer version builds the same map and holds the conflicts as they were sent.
\<close>

lemma validation_conflicts_us:
  assumes "length (parsed_us (rawText st)) = 10"
    and "inBatchDupKeys (parsed_us (rawText st)) = []"
    and "validateResult a = Resolved data"
    and "vConflicts data = Some c"
    and "db c \<noteq> [] \<or> inBatch c \<noteq> []"
  shows "conflicts (fst (handleValidate_us a st))
           = Some \<lparr>db = map toLowerCase (db c), inBatch = map toLowerCase (inBatch c)\<rparr>"
    and "dom (replacements (fst (handleValidate_us a st)))
           = toLowerCase ` (set (db c) \<union> set (inBatch c))"
    and "allBlank (replacements (fst (handleValidate_us a st)))"
    and "snd (handleValidate_us a st) = [PostValidate (parsed_us (rawText st))]"
  unfolding handleValidate_us_conflicts [OF assms]
  by (simp_all add: dom_blank_new_keys blank_new_keys_values allBlank_empty image_Un)

lemma validation_conflicts_rd:
  assumes "length (parsed_rd (rawText st)) = 10"
    and "validateResult a = Resolved data"
    and "\<not> ok data"
    and "vConflicts data = Some c"
  shows "conflicts (dispatchAll st (fst (handleValidate_rd a st))) = Some c"
    and "dom (replacements (dispatchAll st (fst (handleValidate_rd a st))))
           = toLowerCase ` (set (db c) \<union> set (inBatch c))"
    and "allBlank (replacements (dispatchAll st (fst (handleValidate_rd a st))))"
proof -
  have e: "fst (handleValidate_rd a st) =
      [SET_MESSAGE None, SET_CONFLICTS None, SET_LOADING True, SET_CONFLICTS (Some c),
       SET_REPLACEMENTS
         (foldl (\<lambda>m k. m(toLowerCase k \<mapsto> [])) Map.empty (db c @ inBatch c)),
       SET_MESSAGE (Some SomeDuplicates), SET_LOADING False]"
    using assms by (simp add: handleValidate_rd_def Let_def)
  show "conflicts (dispatchAll st (fst (handleValidate_rd a st))) = Some c"
    unfolding e by (simp add: dispatchAll_def)
  have r: "replacements (dispatchAll st (fst (handleValidate_rd a st)))
      = foldl (\<lambda>m k. m(toLowerCase k \<mapsto> [])) Map.empty (db c @ inBatch c)"
    unfolding e by (simp add: dispatchAll_def)
  show "dom (replacements (dispatchAll st (fst (handleValidate_rd a st))))
           = toLowerCase ` (set (db c) \<union> set (inBatch c))"
    unfolding r dom_blank_lower_keys by simp
  show "allBlank (replacements (dispatchAll st (fst (handleValidate_rd a st))))"
    unfolding r by (rule blank_lower_keys_values [OF allBlank_empty])
qed

subsection \<open>The sample states: they can be reached, and what they hold\<close>




lemma tenState_parsed_us: "length (parsed_us (rawText tenState)) = 10"
  by code_simp

lemma tenState_parsed_rd: "length (parsed_rd (rawText tenState)) = 10"
  by code_simp



lemma conflictState_us_fields:
  "rawText conflictState_us = tenText"
  "conflicts conflictState_us = Some \<lparr>db = [''apple''], inBatch = []\<rparr>"
  "replacements conflictState_us ''apple'' = Some []"
  "\<not> loading conflictState_us"
  by code_simp+

lemma conflictState_rd_fields:
  "rawText conflictState_rd = tenText"
  "conflicts conflictState_rd = Some \<lparr>db = [''apple''], inBatch = []\<rparr>"
  "replacements conflictState_rd ''apple'' = Some []"
  "\<not> loading conflictState_rd"
  by code_simp+

lemma tenText_parsed_us: "length (parsed_us tenText) = 10"
  by code_simp
lemma tenText_parsed_rd: "length (parsed_rd tenText) = 10"
  by code_simp
lemma tenText_no_dups: "inBatchDupKeys (parsed_us tenText) = []"
  by code_simp

lemma apiDown_fields:
  "validateResult apiDown = Rejected networkDown" "postResult apiDown = Rejected networkDown"
  by (simp_all add: apiDown_def apiOf_def)



section \<open>The claims\<close>

subsection \<open>Parsing\<close>

text \<open>
  Claim C6. For every raw input, the parsed words are the pieces of the input between
  maximal runs of delimiters (newline, comma and semicolon in the \<^verbatim>\<open>useState\<close> version;
  white space and the double quote as well in the reducer version), each trimmed, the empty
  ones dropped, and only the first 100 kept. The first piece ends at the first delimiter,
  the run of delimiters after it is skipped, and an input without a delimiter is one piece.
  Parsing is a function of the input alone, defined on every input, and never gives more
  than 100 words; every word is non-empty and trimmed.
\<close>

theorem parsed_splits_trims_caps:
  "parsed_us raw = take 100 (filter (\<lambda>w. w \<noteq> []) (map trim (split isDelim_us raw)))
   \<and> parsed_rd raw = take 100 (filter (\<lambda>w. w \<noteq> []) (map trim (split isDelim_rd raw)))
   \<and> (\<forall>d p. (\<forall>x\<in>set p. \<not> d x) \<longrightarrow> split d p = [p])
   \<and> (\<forall>d p c rest. (\<forall>x\<in>set p. \<not> d x) \<and> d c \<longrightarrow>
         split d (p @ c # rest) = p # split d (dropWhile d rest))
   \<and> length (parsed_us raw) \<le> 100 \<and> length (parsed_rd raw) \<le> 100
   \<and> (\<forall>t\<in>set (parsed_us raw) \<union> set (parsed_rd raw). t \<noteq> [] \<and> trim t = t)"
proof -
  have 1: "parsed_us raw = take 100 (filter (\<lambda>w. w \<noteq> []) (map trim (split isDelim_us raw)))"
    by (simp add: parsed_us_def normalize_def [abs_def])
  have 2: "parsed_rd raw = take 100 (filter (\<lambda>w. w \<noteq> []) (map trim (split isDelim_rd raw)))"
    by (simp add: parsed_rd_def normalize_def [abs_def])
  have 3: "\<forall>d p. (\<forall>x\<in>set p. \<not> d x) \<longrightarrow> split d p = [p]"
  proof (intro allI impI)
    fix d :: "char \<Rightarrow> bool" and p assume "\<forall>x\<in>set p. \<not> d x"
    then show "split d p = [p]" by (rule split_no_delim)
  qed
  have 4: "\<forall>d p c rest. (\<forall>x\<in>set p. \<not> d x) \<and> d c \<longrightarrow>
         split d (p @ c # rest) = p # split d (dropWhile d rest)"
  proof (intro allI impI)
    fix d :: "char \<Rightarrow> bool" and p c rest assume "(\<forall>x\<in>set p. \<not> d x) \<and> d c"
    then show "split d (p @ c # rest) = p # split d (dropWhile d rest)"
      by (simp add: split_at_run)
  qed
  have 5: "\<forall>t\<in>set (parsed_us raw) \<union> set (parsed_rd raw). t \<noteq> [] \<and> trim t = t"
    using parsed_us_token [of _ raw] parsed_rd_token [of _ raw] by blast
  show ?thesis
    by (intro conjI) (rule 1 2 3 4 5 length_parsed_us length_parsed_rd)+
qed

theorem parsed_splits_trims_caps_witness:
  "parsed_us ('' a b,;c'' @ [CHR 0x0A] @ ''d ,, '') = [''a b'', ''c'', ''d'']
   \<and> parsed_rd ('' a b,;c'' @ [CHR 0x0A] @ ''d ,, '') = [''a'', ''b'', ''c'', ''d'']
   \<and> trim ''a b'' = ''a b''
   \<and> split isDelim_us (''ab'' @ CHR '','' # '';cd'') = ''ab'' # split isDelim_us (dropWhile isDelim_us '';cd'')
   \<and> split isDelim_us ''ab'' = [''ab'']
   \<and> length (parsed_us (concat (replicate 150 ''x,''))) = 100"
proof -
  let ?raw = "'' a b,;c'' @ [CHR 0x0A] @ ''d ,, ''"
  have u: "parsed_us ?raw = [''a b'', ''c'', ''d'']" by code_simp
  have r: "parsed_rd ?raw = [''a'', ''b'', ''c'', ''d'']" by code_simp
  have n: "\<forall>x\<in>set ''ab''. \<not> isDelim_us x" by code_simp
  have c: "isDelim_us (CHR '','')" by code_simp
  have l: "length (parsed_us (concat (replicate 150 ''x,''))) = 100" by code_simp
  note t = parsed_splits_trims_caps [of ?raw]
  from t have "\<forall>t\<in>set (parsed_us ?raw) \<union> set (parsed_rd ?raw). t \<noteq> [] \<and> trim t = t"
    by blast
  then have "\<forall>t\<in>set [''a b'', ''c'', ''d''] \<union> set [''a'', ''b'', ''c'', ''d'']. t \<noteq> [] \<and> trim t = t"
    unfolding u r .
  then have a: "trim ''a b'' = ''a b''" by simp
  from t have "\<forall>d p. (\<forall>x\<in>set p. \<not> d x) \<longrightarrow> split d p = [p]" by (elim conjE)
  then have "(\<forall>x\<in>set ''ab''. \<not> isDelim_us x) \<longrightarrow> split isDelim_us ''ab'' = [''ab'']"
    by (elim allE)
  with n have b: "split isDelim_us ''ab'' = [''ab'']" by (elim impE)
  from t have "\<forall>d p c rest. (\<forall>x\<in>set p. \<not> d x) \<and> d c \<longrightarrow>
         split d (p @ c # rest) = p # split d (dropWhile d rest)" by (elim conjE)
  then have "(\<forall>x\<in>set ''ab''. \<not> isDelim_us x) \<and> isDelim_us (CHR '','') \<longrightarrow>
       split isDelim_us (''ab'' @ CHR '','' # '';cd'')
         = ''ab'' # split isDelim_us (dropWhile isDelim_us '';cd'')"
    by (elim allE)
  with n c have d: "split isDelim_us (''ab'' @ CHR '','' # '';cd'')
      = ''ab'' # split isDelim_us (dropWhile isDelim_us '';cd'')" by (elim impE conjI)
  show ?thesis by (intro conjI) (rule u r a b d l)+
qed

subsection \<open>The final list\<close>







subsection \<open>Submitting\<close>






subsection \<open>Validating\<close>




text \<open>
  Claim C4 at the input where the reducer version departs from it: the validation answers
  \<^verbatim>\<open>{ ok: false, conflicts: { db: ["Apple"], inBatch: [] } }\<close>. The reducer version keeps
  the conflicts as sent, \<^verbatim>\<open>Apple\<close>, while it files the empty replacement under \<^verbatim>\<open>apple\<close>;
  a replacement typed into the field of \<^verbatim>\<open>Apple\<close> is filed under \<^verbatim>\<open>Apple\<close> and does not
  reach the final list, which reads the key \<^verbatim>\<open>apple\<close>. The \<^verbatim>\<open>useState\<close> version holds
  conflicts and replacements in lowercase.
\<close>

theorem mixed_case_conflicts_kept_as_sent:
  "length (parsed_rd (rawText tenState)) = 10
   \<and> validateResult apiMixedCase
       = Resolved \<lparr>ok = False, vConflicts = Some \<lparr>db = [''Apple''], inBatch = []\<rparr>\<rparr>
   \<and> conflicts (dispatchAll tenState (fst (handleValidate_rd apiMixedCase tenState)))
       = Some \<lparr>db = [''Apple''], inBatch = []\<rparr>
   \<and> replacements (dispatchAll tenState (fst (handleValidate_rd apiMixedCase tenState))) ''apple''
       = Some []
   \<and> replacements (dispatchAll tenState (fst (handleValidate_rd apiMixedCase tenState))) ''Apple''
       = None
   \<and> buildFinal_rd
         (reducer (dispatchAll tenState (fst (handleValidate_rd apiMixedCase tenState)))
            (SET_REPLACEMENTS
               ((replacements (dispatchAll tenState (fst (handleValidate_rd apiMixedCase tenState))))
                  (''Apple'' \<mapsto> ''pear''))))
       = parsed_rd tenText
   \<and> conflicts (fst (handleValidate_us apiMixedCase tenState))
       = Some \<lparr>db = [''apple''], inBatch = []\<rparr>
   \<and> replacements (fst (handleValidate_us apiMixedCase tenState)) ''apple'' = Some []"
  by code_simp

theorem mixed_case_conflicts_kept_as_sent_witness:
  "conflicts (dispatchAll tenState (fst (handleValidate_rd apiMixedCase tenState)))
     = Some \<lparr>db = [''Apple''], inBatch = []\<rparr>
   \<and> replacements (dispatchAll tenState (fst (handleValidate_rd apiMixedCase tenState))) ''Apple''
       = None"
  using mixed_case_conflicts_kept_as_sent by (elim conjE) (intro conjI)

text \<open>
  Claim C7, as stated, fails in both versions: \<^verbatim>\<open>handleValidate\<close> clears the conflicts
  before it sends the request. Started in the state that shows the conflict \<^verbatim>\<open>apple\<close>, with
  a validation request that gets no response, it ends with no conflicts.
\<close>

theorem failed_validation_counterexample:
  "length (parsed_us (rawText conflictState_us)) = 10
   \<and> inBatchDupKeys (parsed_us (rawText conflictState_us)) = []
   \<and> validateResult apiDown = Rejected networkDown
   \<and> snd (handleValidate_us apiDown conflictState_us) = [PostValidate (parsed_us tenText)]
   \<and> conflicts conflictState_us = Some \<lparr>db = [''apple''], inBatch = []\<rparr>
   \<and> conflicts (fst (handleValidate_us apiDown conflictState_us)) = None
   \<and> length (parsed_rd (rawText conflictState_rd)) = 10
   \<and> conflicts conflictState_rd = Some \<lparr>db = [''apple''], inBatch = []\<rparr>
   \<and> conflicts (dispatchAll conflictState_rd (fst (handleValidate_rd apiDown conflictState_rd)))
       = None"
proof -
  have u: "handleValidate_us apiDown conflictState_us
      = (conflictState_us\<lparr>message := Some (errorMessage_us networkDown ValidationFailed),
           conflicts := None, loading := False\<rparr>, [PostValidate (parsed_us tenText)])"
    using handleValidate_us_rejected [of conflictState_us apiDown networkDown]
    by (simp add: conflictState_us_fields tenText_parsed_us tenText_no_dups apiDown_fields)
  have r: "dispatchAll conflictState_rd (fst (handleValidate_rd apiDown conflictState_rd))
      = conflictState_rd\<lparr>message := Some (errorMessage_rd networkDown ValidationFailed),
           conflicts := None, loading := False\<rparr>"
    using handleValidate_rd_rejected(1) [of conflictState_rd apiDown networkDown]
    by (simp add: conflictState_rd_fields tenText_parsed_rd apiDown_fields)
  show ?thesis
    unfolding u r
    by (simp add: conflictState_us_fields conflictState_rd_fields tenText_parsed_us
        tenText_parsed_rd tenText_no_dups apiDown_fields)
qed

text \<open>
  Claim C7, amended. When the validation request is sent and rejected, \<^verbatim>\<open>handleValidate\<close>
  shows a message (the server's error text or \<^verbatim>\<open>Validation failed\<close>), ends with no
  conflicts and with loading off, and leaves raw text and replacements as they were; the
  conflicts are therefore unchanged exactly when there were none before. No conflicts are
  created by the failure, and the same request can be sent again.
\<close>

theorem failed_validation:
  "(length (parsed_us (rawText st)) = 10 \<and> inBatchDupKeys (parsed_us (rawText st)) = []
      \<and> validateResult a = Rejected err \<longrightarrow>
      handleValidate_us a st
        = (st\<lparr>message := Some (errorMessage_us err ValidationFailed), conflicts := None,
               loading := False\<rparr>,
           [PostValidate (parsed_us (rawText st))])
      \<and> (conflicts st = None \<longrightarrow> conflicts (fst (handleValidate_us a st)) = conflicts st))
   \<and> (length (parsed_rd (rawText st)) = 10 \<and> validateResult a = Rejected err \<longrightarrow>
      dispatchAll st (fst (handleValidate_rd a st))
        = st\<lparr>message := Some (errorMessage_rd err ValidationFailed), conflicts := None,
              loading := False\<rparr>
      \<and> snd (handleValidate_rd a st) = [PostValidate (parsed_rd (rawText st))]
      \<and> (conflicts st = None \<longrightarrow>
           conflicts (dispatchAll st (fst (handleValidate_rd a st))) = conflicts st))"
proof (intro conjI impI)
  assume h: "length (parsed_us (rawText st)) = 10 \<and> inBatchDupKeys (parsed_us (rawText st)) = []
      \<and> validateResult a = Rejected err"
  then have e: "handleValidate_us a st
        = (st\<lparr>message := Some (errorMessage_us err ValidationFailed), conflicts := None,
               loading := False\<rparr>,
           [PostValidate (parsed_us (rawText st))])"
    by (intro handleValidate_us_rejected) simp_all
  show "handleValidate_us a st
        = (st\<lparr>message := Some (errorMessage_us err ValidationFailed), conflicts := None,
               loading := False\<rparr>,
           [PostValidate (parsed_us (rawText st))])" by (rule e)
  assume "conflicts st = None"
  then show "conflicts (fst (handleValidate_us a st)) = conflicts st" unfolding e by simp
next
  assume h: "length (parsed_rd (rawText st)) = 10 \<and> validateResult a = Rejected err"
  then have e: "dispatchAll st (fst (handleValidate_rd a st))
        = st\<lparr>message := Some (errorMessage_rd err ValidationFailed), conflicts := None,
              loading := False\<rparr>"
    by (intro handleValidate_rd_rejected(1)) simp_all
  show "dispatchAll st (fst (handleValidate_rd a st))
        = st\<lparr>message := Some (errorMessage_rd err ValidationFailed), conflicts := None,
              loading := False\<rparr>" by (rule e)
  from h show "snd (handleValidate_rd a st) = [PostValidate (parsed_rd (rawText st))]"
    by (intro handleValidate_rd_rejected(2)) simp_all
  assume "conflicts st = None"
  then show "conflicts (dispatchAll st (fst (handleValidate_rd a st))) = conflicts st"
    unfolding e by simp
qed

theorem failed_validation_witness:
  "length (parsed_us (rawText tenState)) = 10
   \<and> inBatchDupKeys (parsed_us (rawText tenState)) = []
   \<and> validateResult apiDown = Rejected networkDown
   \<and> message (fst (handleValidate_us apiDown tenState)) = Some ValidationFailed
   \<and> conflicts (fst (handleValidate_us apiDown tenState)) = None
   \<and> rawText (fst (handleValidate_us apiDown tenState)) = tenText
   \<and> message (dispatchAll tenState (fst (handleValidate_rd apiDown tenState)))
       = Some ValidationFailed
   \<and> conflicts (dispatchAll tenState (fst (handleValidate_rd apiDown tenState))) = None"
proof -
  have x: "rawText tenState = tenText" by (simp add: tenState_def)
  have n: "inBatchDupKeys (parsed_us (rawText tenState)) = []"
    unfolding x by (rule tenText_no_dups)
  have m: "errorMessage_us networkDown ValidationFailed = ValidationFailed"
    "errorMessage_rd networkDown ValidationFailed = ValidationFailed" by code_simp+
  note t = failed_validation [of tenState apiDown networkDown]
  from t tenState_parsed_us n apiDown_fields(1)
  have u: "handleValidate_us apiDown tenState
        = (tenState\<lparr>message := Some (errorMessage_us networkDown ValidationFailed),
             conflicts := None, loading := False\<rparr>,
           [PostValidate (parsed_us (rawText tenState))])" by blast
  from t tenState_parsed_rd apiDown_fields(1)
  have r: "dispatchAll tenState (fst (handleValidate_rd apiDown tenState))
        = tenState\<lparr>message := Some (errorMessage_rd networkDown ValidationFailed),
            conflicts := None, loading := False\<rparr>" by blast
  show ?thesis unfolding u r m using tenState_parsed_us n apiDown_fields(1) x by simp
qed

subsection \<open>The keys of the replacements\<close>




end
